theory Spec2Isabelle
  imports Complex_Main
begin

section \<open>JavaScript values\<close>

subsection \<open>Numbers\<close>

text \<open>
  A JavaScript \<^verbatim>\<open>number\<close> is a finite value, one of the two infinities, or NaN.
  Finite values are modelled as exact rationals: rounding of the IEEE double and the
  negative zero are not represented. The operations below are the ones the engine uses;
  each follows the IEEE rules for the infinities and NaN.
\<close>

datatype jsnum = Num rat | PosInf | NegInf | NaN

fun isFinite :: "jsnum \<Rightarrow> bool" where
  "isFinite (Num r) = True"
| "isFinite PosInf = False"
| "isFinite NegInf = False"
| "isFinite NaN = False"

fun js_add :: "jsnum \<Rightarrow> jsnum \<Rightarrow> jsnum" where
  "js_add NaN y = NaN"
| "js_add x NaN = NaN"
| "js_add (Num a) (Num b) = Num (a + b)"
| "js_add PosInf NegInf = NaN"
| "js_add NegInf PosInf = NaN"
| "js_add PosInf y = PosInf"
| "js_add NegInf y = NegInf"
| "js_add (Num a) y = y"

fun js_neg :: "jsnum \<Rightarrow> jsnum" where
  "js_neg (Num a) = Num (- a)"
| "js_neg PosInf = NegInf"
| "js_neg NegInf = PosInf"
| "js_neg NaN = NaN"

definition js_sub :: "jsnum \<Rightarrow> jsnum \<Rightarrow> jsnum" where
  "js_sub x y = js_add x (js_neg y)"

fun js_mul :: "jsnum \<Rightarrow> jsnum \<Rightarrow> jsnum" where
  "js_mul NaN y = NaN"
| "js_mul x NaN = NaN"
| "js_mul (Num a) (Num b) = Num (a * b)"
| "js_mul (Num a) PosInf = (if a = 0 then NaN else if 0 < a then PosInf else NegInf)"
| "js_mul (Num a) NegInf = (if a = 0 then NaN else if 0 < a then NegInf else PosInf)"
| "js_mul PosInf (Num b) = (if b = 0 then NaN else if 0 < b then PosInf else NegInf)"
| "js_mul NegInf (Num b) = (if b = 0 then NaN else if 0 < b then NegInf else PosInf)"
| "js_mul PosInf PosInf = PosInf"
| "js_mul PosInf NegInf = NegInf"
| "js_mul NegInf PosInf = NegInf"
| "js_mul NegInf NegInf = PosInf"

fun js_div :: "jsnum \<Rightarrow> jsnum \<Rightarrow> jsnum" where
  "js_div NaN y = NaN"
| "js_div x NaN = NaN"
| "js_div (Num a) (Num b) =
     (if b = 0 then (if a = 0 then NaN else if 0 < a then PosInf else NegInf)
      else Num (a / b))"
| "js_div (Num a) PosInf = Num 0"
| "js_div (Num a) NegInf = Num 0"
| "js_div PosInf (Num b) = (if b < 0 then NegInf else PosInf)"
| "js_div NegInf (Num b) = (if b < 0 then PosInf else NegInf)"
| "js_div PosInf y = NaN"
| "js_div NegInf y = NaN"

text \<open>The comparisons \<^verbatim>\<open><\<close> and \<^verbatim>\<open><=\<close>; both are false when an operand is NaN.\<close>

fun js_lt :: "jsnum \<Rightarrow> jsnum \<Rightarrow> bool" where
  "js_lt NaN y = False"
| "js_lt x NaN = False"
| "js_lt (Num a) (Num b) = (a < b)"
| "js_lt x NegInf = False"
| "js_lt PosInf y = False"
| "js_lt NegInf y = True"
| "js_lt (Num a) PosInf = True"

fun js_le :: "jsnum \<Rightarrow> jsnum \<Rightarrow> bool" where
  "js_le NaN y = False"
| "js_le x NaN = False"
| "js_le (Num a) (Num b) = (a \<le> b)"
| "js_le NegInf y = True"
| "js_le x PosInf = True"
| "js_le PosInf y = False"
| "js_le (Num a) NegInf = False"

definition js_gt :: "jsnum \<Rightarrow> jsnum \<Rightarrow> bool" where
  "js_gt x y = js_lt y x"

definition js_ge :: "jsnum \<Rightarrow> jsnum \<Rightarrow> bool" where
  "js_ge x y = js_le y x"

text \<open>\<^verbatim>\<open>Math.max\<close> and \<^verbatim>\<open>Math.min\<close> of two arguments: NaN as soon as one argument is NaN.\<close>

definition Math_max :: "jsnum \<Rightarrow> jsnum \<Rightarrow> jsnum" where
  "Math_max x y = (if x = NaN \<or> y = NaN then NaN else if js_lt x y then y else x)"

definition Math_min :: "jsnum \<Rightarrow> jsnum \<Rightarrow> jsnum" where
  "Math_min x y = (if x = NaN \<or> y = NaN then NaN else if js_lt y x then y else x)"

text \<open>A count (array or string length) as a number.\<close>

definition of_count :: "nat \<Rightarrow> jsnum" where
  "of_count n = Num (of_nat n)"

subsection \<open>Strings\<close>

text \<open>
  A JavaScript string is a sequence of UTF-16 code units and \<^verbatim>\<open>length\<close> counts them,
  so a string is modelled as the list of its code units. \<open>js\<close> reads an ASCII literal.
\<close>

type_synonym jsstring = "nat list"

definition js :: "string \<Rightarrow> jsstring" where
  "js s = map of_char s"

text \<open>The regular-expression classes \<^verbatim>\<open>\s\<close>, \<^verbatim>\<open>\w\<close>, \<^verbatim>\<open>\d\<close> and \<^verbatim>\<open>[A-Z]\<close>.\<close>

definition is_space :: "nat \<Rightarrow> bool" where
  "is_space c \<longleftrightarrow>
     (9 \<le> c \<and> c \<le> 13) \<or> c = 32 \<or> c = 160 \<or> c = 5760 \<or> (8192 \<le> c \<and> c \<le> 8202) \<or>
     c = 8232 \<or> c = 8233 \<or> c = 8239 \<or> c = 8287 \<or> c = 12288 \<or> c = 65279"

definition is_upper :: "nat \<Rightarrow> bool" where
  "is_upper c \<longleftrightarrow> 65 \<le> c \<and> c \<le> 90"

definition is_digit :: "nat \<Rightarrow> bool" where
  "is_digit c \<longleftrightarrow> 48 \<le> c \<and> c \<le> 57"

definition is_word_char :: "nat \<Rightarrow> bool" where
  "is_word_char c \<longleftrightarrow> is_upper c \<or> (97 \<le> c \<and> c \<le> 122) \<or> is_digit c \<or> c = 95"

text \<open>\<^verbatim>\<open>s.trim()\<close>: the white space of \<^verbatim>\<open>trim\<close> is that of \<^verbatim>\<open>\s\<close>.\<close>

definition trim :: "jsstring \<Rightarrow> jsstring" where
  "trim s = rev (dropWhile is_space (rev (dropWhile is_space s)))"

text \<open>\<^verbatim>\<open>s.endsWith(c)\<close> for a one-character string \<open>c\<close>.\<close>

definition endsWith :: "jsstring \<Rightarrow> nat \<Rightarrow> bool" where
  "endsWith s c \<longleftrightarrow> s \<noteq> [] \<and> last s = c"

text \<open>
  \<^verbatim>\<open>s.split(/\s+/).filter(word => word.length > 0)\<close>: the maximal runs of characters
  that are not white space, in order. \<open>cur\<close> is the run being read.
\<close>

primrec words_from :: "jsstring \<Rightarrow> jsstring \<Rightarrow> jsstring list" where
  "words_from cur [] = (if cur = [] then [] else [cur])"
| "words_from cur (c # cs) =
     (if is_space c then (if cur = [] then words_from [] cs else cur # words_from [] cs)
      else words_from (cur @ [c]) cs)"

definition split_words :: "jsstring \<Rightarrow> jsstring list" where
  "split_words s = words_from [] s"

text \<open>\<^verbatim>\<open>s.split('\n')\<close>: the pieces between line feeds, empty pieces included.\<close>

primrec lines_from :: "jsstring \<Rightarrow> jsstring \<Rightarrow> jsstring list" where
  "lines_from cur [] = [cur]"
| "lines_from cur (c # cs) =
     (if c = 10 then cur # lines_from [] cs else lines_from (cur @ [c]) cs)"

definition split_lines :: "jsstring \<Rightarrow> jsstring list" where
  "split_lines s = lines_from [] s"

text \<open>The decimal digits of a count, as template literals print it.\<close>

fun decimal :: "nat \<Rightarrow> jsstring" where
  "decimal n = (if n < 10 then [48 + n] else decimal (n div 10) @ [48 + n mod 10])"

declare decimal.simps [simp del]

section \<open>Data model (types/document.ts, types/rsvp.ts, types/errors.ts)\<close>

datatype SectionType = Heading | Paragraph | Bullet | Normal

text \<open>Word indices of a section are integers; the detector can produce \<open>-1\<close>.\<close>

record Section =
  title :: jsstring
  startWordIndex :: int
  endWordIndex :: int
  section_type :: SectionType

record ProcessedWord =
  word_text :: jsstring
  orp :: nat
  baseDelay :: nat
  punctuationPause :: jsnum
  isLongWord :: bool

text \<open>
  Of the metadata only the title is read by the functions modelled here. The generated
  \<^verbatim>\<open>id\<close> and the dates of a structure depend on the clock and on \<^verbatim>\<open>Math.random\<close>;
  no modelled function reads them and they are left out.
\<close>

record ProcessedDocument =
  content :: jsstring
  doc_sections :: "Section list"
  metadata_title :: jsstring

record DocumentStructure =
  structure_title :: jsstring
  totalWords :: nat
  sections :: "Section list"
  words :: "ProcessedWord list"
  lastPosition :: nat

datatype ErrorType =
    INVALID_FILE_FORMAT | CORRUPTED_DOCUMENT | EMPTY_DOCUMENT | OVERSIZED_FILE | PARSING_FAILED
  | LOCAL_STORAGE_FULL | LOCAL_STORAGE_UNAVAILABLE | DATA_CORRUPTION
  | INVALID_READING_SESSION | POSITION_OUT_OF_BOUNDS | TIMING_CALCULATION_ERROR
  | AI_SERVICE_UNAVAILABLE | AI_SERVICE_ERROR | AI_GENERATION_TIMEOUT | AI_CONTENT_ERROR
  | NETWORK_ERROR | TIMEOUT_ERROR
  | UNKNOWN_ERROR | VALIDATION_ERROR

datatype ErrorSeverity = LOW | MEDIUM | HIGH | CRITICAL

text \<open>A thrown value: an \<^verbatim>\<open>AppError\<close> with its type and severity, or a plain \<^verbatim>\<open>Error\<close>.\<close>

datatype error = AppError ErrorType ErrorSeverity | PlainError

fun error_type :: "error \<Rightarrow> ErrorType option" where
  "error_type (AppError t s) = Some t"
| "error_type PlainError = None"

section \<open>Document processor (services/documentProcessor.ts)\<close>

subsection \<open>Word processing\<close>

definition DP_calculateORP :: "jsstring \<Rightarrow> nat" where
  "DP_calculateORP word =
     (let length = length word in
      if length \<le> 5 then 0
      else if length \<le> 9 then 1
      else if length \<le> 13 then 2
      else 3)"

definition DP_calculateBaseDelay :: "jsstring \<Rightarrow> nat" where
  "DP_calculateBaseDelay word =
     (let length = length word in
      if length \<le> 3 then 200
      else if length \<le> 6 then 250
      else if length \<le> 9 then 300
      else 350)"

definition DP_calculatePunctuationPause :: "jsstring \<Rightarrow> jsnum" where
  "DP_calculatePunctuationPause word =
     (if endsWith word 46 \<or> endsWith word 33 \<or> endsWith word 63 then Num 300
      else if endsWith word 44 \<or> endsWith word 59 \<or> endsWith word 58 then Num 150
      else Num 0)"

text \<open>\<^verbatim>\<open>word.replace(/[^\w\s]/g, '')\<close> keeps the word characters and the white space.\<close>

definition processWords :: "jsstring \<Rightarrow> ProcessedWord list" where
  "processWords cont =
     map (\<lambda>word.
            let cleanWord = filter (\<lambda>c. is_word_char c \<or> is_space c) word in
            \<lparr> word_text = word,
              orp = DP_calculateORP cleanWord,
              baseDelay = DP_calculateBaseDelay word,
              punctuationPause = DP_calculatePunctuationPause word,
              isLongWord = (length word > 8) \<rparr>)
         (split_words cont)"

text \<open>\<^verbatim>\<open>extractStructure\<close>: the sections of the document are handed on as they are.\<close>

definition extractStructure :: "ProcessedDocument \<Rightarrow> DocumentStructure" where
  "extractStructure document =
     (let words = processWords (content document) in
      \<lparr> structure_title = metadata_title document,
        totalWords = length words,
        sections = doc_sections document,
        words = words,
        lastPosition = 0 \<rparr>)"

subsection \<open>Section detection\<close>

text \<open>
  \<^verbatim>\<open>isHeading\<close> tests three patterns: \<^verbatim>\<open>/^[A-Z][^.!?]*$/\<close>, \<^verbatim>\<open>/^\d+\.\s+[A-Z]/\<close> and
  \<^verbatim>\<open>/^[A-Z\s]{3,}$/\<close>. In each the greedy match is the only one, because the classes
  that follow one another are disjoint.
\<close>

definition heading_plain :: "jsstring \<Rightarrow> bool" where
  "heading_plain line \<longleftrightarrow>
     (case line of [] \<Rightarrow> False
      | c # cs \<Rightarrow> is_upper c \<and> list_all (\<lambda>d. d \<noteq> 46 \<and> d \<noteq> 33 \<and> d \<noteq> 63) cs)"

definition heading_numbered :: "jsstring \<Rightarrow> bool" where
  "heading_numbered line \<longleftrightarrow>
     takeWhile is_digit line \<noteq> [] \<and>
     (case dropWhile is_digit line of [] \<Rightarrow> False
      | c # cs \<Rightarrow> c = 46 \<and> takeWhile is_space cs \<noteq> [] \<and>
          (case dropWhile is_space cs of [] \<Rightarrow> False | d # ds \<Rightarrow> is_upper d))"

definition heading_caps :: "jsstring \<Rightarrow> bool" where
  "heading_caps line \<longleftrightarrow> 3 \<le> length line \<and> list_all (\<lambda>c. is_upper c \<or> is_space c) line"

definition isHeading :: "jsstring \<Rightarrow> bool" where
  "isHeading line \<longleftrightarrow> heading_plain line \<or> heading_numbered line \<or> heading_caps line"

text \<open>\<^verbatim>\<open>isBulletPoint\<close> tests \<^verbatim>\<open>/^\s*[\<bullet>\-\*]\s+/\<close>; the bullet glyph is U+2022.\<close>

definition isBulletPoint :: "jsstring \<Rightarrow> bool" where
  "isBulletPoint line \<longleftrightarrow>
     (case dropWhile is_space line of [] \<Rightarrow> False
      | c # cs \<Rightarrow> (c = 8226 \<or> c = 45 \<or> c = 42) \<and>
          (case cs of [] \<Rightarrow> False | d # ds \<Rightarrow> is_space d))"

text \<open>
  \<^verbatim>\<open>lastSection.endWordIndex = currentWordIndex - 1\<close>, done when \<^verbatim>\<open>sections\<close> is not
  empty: the array is updated in its last place.
\<close>

definition close_last :: "Section list \<Rightarrow> int \<Rightarrow> Section list" where
  "close_last secs currentWordIndex =
     (if secs = [] then []
      else butlast secs @ [(last secs)\<lparr>endWordIndex := currentWordIndex - 1\<rparr>])"

text \<open>One iteration of the loop over the lines, on the pair of \<^verbatim>\<open>sections\<close> and \<^verbatim>\<open>currentWordIndex\<close>.\<close>

definition scan_line :: "Section list \<times> int \<Rightarrow> jsstring \<Rightarrow> Section list \<times> int" where
  "scan_line st raw =
     (let secs = fst st; currentWordIndex = snd st; line = trim raw;
          secs' =
            (if isHeading line then
               close_last secs currentWordIndex @
                 [\<lparr> title = (if line \<noteq> [] then line
                              else js ''Section '' @ decimal (length secs + 1)),
                    startWordIndex = currentWordIndex,
                    endWordIndex = 0,
                    section_type = Heading \<rparr>]
             else if isBulletPoint line then
               (if secs = [] \<or> section_type (last secs) \<noteq> Bullet then
                  close_last secs currentWordIndex @
                    [\<lparr> title = js ''Bullet Points'',
                       startWordIndex = currentWordIndex,
                       endWordIndex = 0,
                       section_type = Bullet \<rparr>]
                else secs)
             else secs)
      in (secs',
          if length line > 0 then currentWordIndex + int (length (split_words line))
          else currentWordIndex))"

definition extractSections :: "jsstring \<Rightarrow> Section list" where
  "extractSections cont =
     (let st = foldl scan_line ([], 0) (split_lines cont);
          secs = close_last (fst st) (snd st)
      in if secs = [] then
           [\<lparr> title = js ''Document Content'',
              startWordIndex = 0,
              endWordIndex = snd st - 1,
              section_type = Normal \<rparr>]
         else secs)"

section \<open>Playback engine (RSVPEngineService)\<close>

subsection \<open>State\<close>

record RSVPConfig =
  config_baseSpeed :: jsnum
  longWordThreshold :: jsnum
  longWordMultiplier :: jsnum
  commaPause :: jsnum
  periodPause :: jsnum
  bulletPause :: jsnum
  paragraphPause :: jsnum

text \<open>A \<^verbatim>\<open>Partial<RSVPConfig>\<close>: each field present or absent.\<close>

record PartialConfig =
  opt_baseSpeed :: "jsnum option"
  opt_longWordThreshold :: "jsnum option"
  opt_longWordMultiplier :: "jsnum option"
  opt_commaPause :: "jsnum option"
  opt_periodPause :: "jsnum option"
  opt_bulletPause :: "jsnum option"
  opt_paragraphPause :: "jsnum option"

record ReadingSession =
  currentPosition :: jsnum
  baseSpeed :: jsnum
  session_isPaused :: bool
  summariesEnabled :: bool

text \<open>The three colour fields of the display state are constants and are left out.\<close>

record DisplayState =
  currentWord :: jsstring
  display_orp :: nat
  wordIndex :: jsnum
  display_totalWords :: nat
  isVisible :: bool

record WordDisplay =
  word :: jsstring
  wd_orp :: nat
  duration :: jsnum
  pauseAfter :: jsnum

text \<open>Which callbacks are registered; a callback is an observer and does not call the engine back.\<close>

record Callbacks =
  onWordDisplay :: bool
  onPositionChange :: bool
  onSessionEnd :: bool
  onSectionComplete :: bool

datatype event =
    WordDisplayed WordDisplay
  | PositionChanged jsnum nat
  | SessionEnded
  | SectionCompleted nat jsnum
  | ConsoleWarn

text \<open>
  The engine object, together with what its display loops have in the browser.
  \<open>animationFrameId\<close> is the stored frame handle (handles are positive, so a stored handle
  is truthy). \<open>emitted\<close> is the trace of callback invocations and console warnings, oldest
  first. Every call of \<^verbatim>\<open>startDisplayLoop\<close> creates a closure \<^verbatim>\<open>displayNextWord\<close> with its own
  variable \<^verbatim>\<open>lastFrameTime\<close>: \<open>lastFrameTimes\<close> holds that variable for each loop, in the
  order of creation. \<open>pendingFrames\<close> are the requested animation frames, each a handle
  and the loop whose closure was requested; \<open>pendingTimers\<close> are the armed timeouts, each
  the time from which it is due and the loop that armed it; \<open>nextHandle\<close> is the next
  handle \<^verbatim>\<open>requestAnimationFrame\<close> returns. The engine keeps no handle of a timeout.
\<close>

record engine =
  currentSession :: "ReadingSession option"
  documentStructure :: "DocumentStructure option"
  displayState :: DisplayState
  animationFrameId :: "nat option"
  config :: RSVPConfig
  callbacks :: Callbacks
  emitted :: "event list"
  lastFrameTimes :: "jsnum list"
  pendingFrames :: "(nat \<times> nat) list"
  pendingTimers :: "(jsnum \<times> nat) list"
  nextHandle :: nat

text \<open>What a method call does: it returns, or it throws; both leave an engine state.\<close>

datatype outcome = Returned engine | Threw error engine

definition emit :: "bool \<Rightarrow> event \<Rightarrow> engine \<Rightarrow> engine" where
  "emit registered ev e = (if registered then e\<lparr>emitted := emitted e @ [ev]\<rparr> else e)"

definition or_default :: "'a option \<Rightarrow> 'a \<Rightarrow> 'a" where
  "or_default x d = (case x of None \<Rightarrow> d | Some v \<Rightarrow> v)"

definition new_engine :: "PartialConfig \<Rightarrow> engine" where
  "new_engine cfg =
     \<lparr> currentSession = None,
       documentStructure = None,
       displayState = \<lparr> currentWord = [], display_orp = 0, wordIndex = Num 0,
                        display_totalWords = 0, isVisible = False \<rparr>,
       animationFrameId = None,
       config = \<lparr> config_baseSpeed = or_default (opt_baseSpeed cfg) (Num 250),
                  longWordThreshold = or_default (opt_longWordThreshold cfg) (Num 8),
                  longWordMultiplier = or_default (opt_longWordMultiplier cfg) (Num (3 / 2)),
                  commaPause = or_default (opt_commaPause cfg) (Num 150),
                  periodPause = or_default (opt_periodPause cfg) (Num 300),
                  bulletPause = or_default (opt_bulletPause cfg) (Num 200),
                  paragraphPause = or_default (opt_paragraphPause cfg) (Num 400) \<rparr>,
       callbacks = \<lparr> onWordDisplay = False, onPositionChange = False,
                     onSessionEnd = False, onSectionComplete = False \<rparr>,
       emitted = [],
       lastFrameTimes = [],
       pendingFrames = [],
       pendingTimers = [],
       nextHandle = 1 \<rparr>"

definition no_config :: PartialConfig where
  "no_config = \<lparr> opt_baseSpeed = None, opt_longWordThreshold = None,
                 opt_longWordMultiplier = None, opt_commaPause = None, opt_periodPause = None,
                 opt_bulletPause = None, opt_paragraphPause = None \<rparr>"

definition setCallbacks :: "engine \<Rightarrow> Callbacks \<Rightarrow> engine" where
  "setCallbacks e cbs = e\<lparr>callbacks := cbs\<rparr>"

subsection \<open>Word preparation\<close>

text \<open>
  \<^verbatim>\<open>calculateORP\<close> of the engine. \<^verbatim>\<open>word.replace(/[^\w]/g, '')\<close> keeps the word characters.
  \<^verbatim>\<open>Math.floor(length * 0.3)\<close> is \<open>3 * length div 10\<close>: the double nearest to 0.3 lies
  below it by \<open>2 / 10\<close> of a unit in the last place, which moves the product across an
  integer only when the length is a multiple of ten, and there the product rounds to the
  integer itself.
\<close>

definition RSVP_calculateORP :: "jsstring \<Rightarrow> nat" where
  "RSVP_calculateORP w =
     (let cleanWord = filter is_word_char w; length = length cleanWord in
      if length = 0 then 0
      else if length = 1 then 0
      else if length = 2 then 0
      else if length = 3 then 1
      else if length = 4 then 1
      else if length = 5 then 2
      else if length \<le> 8 then 2
      else if length \<le> 12 then 3
      else if length \<le> 16 then 4
      else (3 * length) div 10)"

definition RSVP_calculateBaseDelay :: "jsstring \<Rightarrow> nat" where
  "RSVP_calculateBaseDelay w =
     (let length = length w in
      if length \<le> 3 then 200
      else if length \<le> 6 then 250
      else if length \<le> 9 then 300
      else 350)"

definition RSVP_calculatePunctuationPause :: "RSVPConfig \<Rightarrow> jsstring \<Rightarrow> jsnum" where
  "RSVP_calculatePunctuationPause cfg w =
     (if endsWith w 46 \<or> endsWith w 33 \<or> endsWith w 63 then periodPause cfg
      else if endsWith w 44 \<or> endsWith w 59 \<or> endsWith w 58 then commaPause cfg
      else Num 0)"

text \<open>
  \<^verbatim>\<open>createDocumentStructure\<close>. No helper called for a word throws, so the fallback word
  of the inner \<^verbatim>\<open>catch\<close> is never built. The sections of the document are handed on as
  they are.
\<close>

definition createDocumentStructure :: "engine \<Rightarrow> ProcessedDocument \<Rightarrow> error + DocumentStructure" where
  "createDocumentStructure e document =
     (let ws = split_words (content document) in
      if length ws = 0 then Inl (AppError EMPTY_DOCUMENT HIGH)
      else
        let processedWords =
              map (\<lambda>w. \<lparr> word_text = w,
                          orp = RSVP_calculateORP w,
                          baseDelay = RSVP_calculateBaseDelay w,
                          punctuationPause = RSVP_calculatePunctuationPause (config e) w,
                          isLongWord = js_gt (of_count (length w)) (longWordThreshold (config e)) \<rparr>)
                  ws
        in Inr \<lparr> structure_title = metadata_title document,
                 totalWords = length processedWords,
                 sections = doc_sections document,
                 words = processedWords,
                 lastPosition = 0 \<rparr>)"

subsection \<open>Reading the current word\<close>

text \<open>\<^verbatim>\<open>words[position]\<close>: defined at the integers from 0 below the length only.\<close>

fun word_at :: "ProcessedWord list \<Rightarrow> jsnum \<Rightarrow> ProcessedWord option" where
  "word_at ws (Num r) =
     (if 0 \<le> r \<and> r = of_int \<lfloor>r\<rfloor> \<and> nat \<lfloor>r\<rfloor> < length ws then Some (ws ! nat \<lfloor>r\<rfloor>) else None)"
| "word_at ws PosInf = None"
| "word_at ws NegInf = None"
| "word_at ws NaN = None"

definition in_section :: "jsnum \<Rightarrow> Section \<Rightarrow> bool" where
  "in_section position sec \<longleftrightarrow>
     js_ge position (Num (of_int (startWordIndex sec))) \<and>
     js_le position (Num (of_int (endWordIndex sec)))"

definition getCurrentSection :: "engine \<Rightarrow> Section option" where
  "getCurrentSection e =
     (case (documentStructure e, currentSession e) of
        (Some d, Some s) \<Rightarrow> find (in_section (currentPosition s)) (sections d)
      | _ \<Rightarrow> None)"

definition isAtBulletPoint :: "engine \<Rightarrow> bool" where
  "isAtBulletPoint e =
     (case (documentStructure e, currentSession e) of
        (Some d, Some s) \<Rightarrow>
          (case getCurrentSection e of None \<Rightarrow> False | Some sec \<Rightarrow> section_type sec = Bullet)
      | _ \<Rightarrow> False)"

definition isAtParagraphEnd :: "engine \<Rightarrow> bool" where
  "isAtParagraphEnd e =
     (case (documentStructure e, currentSession e) of
        (Some d, Some s) \<Rightarrow>
          (case word_at (words d) (currentPosition s) of
             None \<Rightarrow> False
           | Some w \<Rightarrow>
               endsWith (word_text w) 46 \<or> endsWith (word_text w) 33 \<or>
               endsWith (word_text w) 63)
      | _ \<Rightarrow> False)"

definition calculateWordDuration :: "engine \<Rightarrow> ProcessedWord \<Rightarrow> jsnum" where
  "calculateWordDuration e w =
     (let baseWPM = (case currentSession e of Some s \<Rightarrow> baseSpeed s
                     | None \<Rightarrow> config_baseSpeed (config e));
          baseDuration = js_mul (js_div (Num 60) baseWPM) (Num 1000)
      in if isLongWord w then js_mul baseDuration (longWordMultiplier (config e))
         else baseDuration)"

definition calculatePauseAfter :: "engine \<Rightarrow> ProcessedWord \<Rightarrow> jsnum" where
  "calculatePauseAfter e w =
     (let pause = punctuationPause w;
          pause = (if isAtBulletPoint e then js_add pause (bulletPause (config e)) else pause);
          pause = (if isAtParagraphEnd e then js_add pause (paragraphPause (config e)) else pause)
      in pause)"

definition empty_display :: WordDisplay where
  "empty_display = \<lparr> word = [], wd_orp = 0, duration = Num 0, pauseAfter = Num 0 \<rparr>"

definition getCurrentWordDisplay :: "engine \<Rightarrow> WordDisplay" where
  "getCurrentWordDisplay e =
     (case (documentStructure e, currentSession e) of
        (Some d, Some s) \<Rightarrow>
          (case word_at (words d) (currentPosition s) of
             None \<Rightarrow> empty_display
           | Some w \<Rightarrow>
               \<lparr> word = word_text w,
                 wd_orp = orp w,
                 duration = calculateWordDuration e w,
                 pauseAfter = calculatePauseAfter e w \<rparr>)
      | _ \<Rightarrow> empty_display)"

definition displayCurrentWord :: "engine \<Rightarrow> engine" where
  "displayCurrentWord e =
     (case (documentStructure e, currentSession e) of
        (Some d, Some s) \<Rightarrow>
          (case word_at (words d) (currentPosition s) of
             None \<Rightarrow> e
           | Some w \<Rightarrow>
               let e1 = e\<lparr>displayState := (displayState e)
                            \<lparr>currentWord := word_text w, display_orp := orp w,
                             wordIndex := currentPosition s\<rparr>\<rparr>;
                   e2 = emit (onWordDisplay (callbacks e1))
                          (WordDisplayed (getCurrentWordDisplay e1)) e1
               in emit (onPositionChange (callbacks e2))
                    (PositionChanged (currentPosition s) (display_totalWords (displayState e2))) e2)
      | _ \<Rightarrow> e)"

subsection \<open>Private helpers of the control methods\<close>

text \<open>
  \<^verbatim>\<open>errorHandler.handleError\<close>: an \<^verbatim>\<open>AppError\<close> comes back as it is, any other error as an
  \<^verbatim>\<open>UNKNOWN_ERROR\<close>. The error log belongs to the handler, not to the engine.
\<close>

fun handleError :: "error \<Rightarrow> error" where
  "handleError (AppError t s) = AppError t s"
| "handleError PlainError = AppError UNKNOWN_ERROR MEDIUM"

text \<open>\<^verbatim>\<open>validatePosition\<close>: the clamped position, with the engine after the console warning.\<close>

definition validatePosition :: "engine \<Rightarrow> jsnum \<Rightarrow> error + (jsnum \<times> engine)" where
  "validatePosition e position =
     (case documentStructure e of
        None \<Rightarrow> Inl (AppError INVALID_READING_SESSION HIGH)
      | Some d \<Rightarrow>
          if \<not> isFinite position then Inr (Num 0, e\<lparr>emitted := emitted e @ [ConsoleWarn]\<rparr>)
          else
            let maxPosition = Math_max (Num 0) (js_sub (of_count (totalWords d)) (Num 1))
            in Inr (Math_max (Num 0) (Math_min position maxPosition), e))"

text \<open>
  \<^verbatim>\<open>requestAnimationFrame(displayNextWord)\<close> for the closure of loop \<open>l\<close>: the browser queues
  the frame and returns its handle. \<^verbatim>\<open>cancelAnimationFrame\<close> takes the frame of a handle
  out of the queue.
\<close>

definition requestAnimationFrame :: "nat \<Rightarrow> engine \<Rightarrow> nat \<times> engine" where
  "requestAnimationFrame l e =
     (nextHandle e,
      e\<lparr>pendingFrames := pendingFrames e @ [(nextHandle e, l)], nextHandle := nextHandle e + 1\<rparr>)"

definition cancelAnimationFrame :: "nat \<Rightarrow> engine \<Rightarrow> engine" where
  "cancelAnimationFrame h e = e\<lparr>pendingFrames := filter (\<lambda>f. fst f \<noteq> h) (pendingFrames e)\<rparr>"


definition stopDisplayLoop :: "engine \<Rightarrow> engine" where
  "stopDisplayLoop e =
     (case animationFrameId e of
        None \<Rightarrow> e
      | Some h \<Rightarrow> (cancelAnimationFrame h e)\<lparr>animationFrameId := None\<rparr>)"

text \<open>\<^verbatim>\<open>sections.find(...)\<close> by index: the least index whose section holds the position.\<close>

primrec findIndex :: "('a \<Rightarrow> bool) \<Rightarrow> 'a list \<Rightarrow> nat option" where
  "findIndex P [] = None"
| "findIndex P (x # xs) = (if P x then Some 0 else map_option Suc (findIndex P xs))"

text \<open>
  \<^verbatim>\<open>checkForSectionCompletion\<close>. Two sections found by \<^verbatim>\<open>find\<close> are the same object exactly
  when they were found at the same index, and \<^verbatim>\<open>indexOf\<close> gives that index back.
\<close>

definition checkForSectionCompletion :: "engine \<Rightarrow> jsnum \<Rightarrow> jsnum \<Rightarrow> engine" where
  "checkForSectionCompletion e previousPosition curPosition =
     (case (documentStructure e, currentSession e) of
        (Some d, Some s) \<Rightarrow>
          let previousSection = findIndex (in_section previousPosition) (sections d);
              currentSection = findIndex (in_section curPosition) (sections d);
              e1 = (case (previousSection, currentSection) of
                      (Some i, Some j) \<Rightarrow>
                        if i \<noteq> j then
                          emit (onSectionComplete (callbacks e)) (SectionCompleted i curPosition) e
                        else e
                    | _ \<Rightarrow> e)
          in (case (previousSection, currentSection) of
                (Some i, None) \<Rightarrow>
                  if js_ge curPosition (of_count (totalWords d)) then
                    emit (onSectionComplete (callbacks e1)) (SectionCompleted i curPosition) e1
                  else e1
              | _ \<Rightarrow> e1)
      | _ \<Rightarrow> e)"

definition advanceToNextWord :: "engine \<Rightarrow> engine" where
  "advanceToNextWord e =
     (case currentSession e of
        None \<Rightarrow> e
      | Some s \<Rightarrow>
          let previousPosition = currentPosition s;
              s' = s\<lparr>currentPosition := js_add (currentPosition s) (Num 1)\<rparr>;
              e1 = e\<lparr>currentSession := Some s'\<rparr>
          in checkForSectionCompletion e1 previousPosition (currentPosition s'))"

subsection \<open>Public methods\<close>

text \<open>The state left by the \<^verbatim>\<open>catch\<close> block of \<^verbatim>\<open>startReading\<close>.\<close>

definition cleanup :: "engine \<Rightarrow> engine" where
  "cleanup e = e\<lparr>currentSession := None, documentStructure := None,
                  displayState := (displayState e)\<lparr>isVisible := False\<rparr>\<rparr>"

definition startReading :: "engine \<Rightarrow> ProcessedDocument \<Rightarrow> jsnum \<Rightarrow> outcome" where
  "startReading e document position =
     (if content document = [] \<or> length (trim (content document)) = 0 then
        Threw (AppError EMPTY_DOCUMENT HIGH) (cleanup e)
      else
        case createDocumentStructure e document of
          Inl err \<Rightarrow> Threw (AppError PARSING_FAILED HIGH) (cleanup e)
        | Inr d \<Rightarrow>
            let e1 = e\<lparr>documentStructure := Some d\<rparr> in
            (case validatePosition e1 position of
               Inl err \<Rightarrow> Threw err (cleanup e1)
             | Inr (validPosition, e2) \<Rightarrow>
                 let e3 = e2\<lparr>currentSession :=
                              Some \<lparr> currentPosition = validPosition,
                                     baseSpeed = config_baseSpeed (config e2),
                                     session_isPaused = False,
                                     summariesEnabled = False \<rparr>\<rparr>;
                     e4 = e3\<lparr>displayState := (displayState e3)
                                \<lparr>wordIndex := validPosition,
                                 display_totalWords := totalWords d,
                                 isVisible := True\<rparr>\<rparr>
                 in Returned (displayCurrentWord e4)))"




definition adjustSpeed :: "engine \<Rightarrow> jsnum \<Rightarrow> outcome" where
  "adjustSpeed e delta =
     (case currentSession e of
        None \<Rightarrow> Threw (AppError INVALID_READING_SESSION MEDIUM) e
      | Some s \<Rightarrow>
          if \<not> isFinite delta then Threw (AppError VALIDATION_ERROR LOW) e
          else
            let newSpeed = Math_max (Num 100)
                             (Math_min (Num 600) (js_add (baseSpeed s) (js_mul delta (Num 25))))
            in Returned (e\<lparr>currentSession := Some (s\<lparr>baseSpeed := newSpeed\<rparr>),
                           config := (config e)\<lparr>config_baseSpeed := newSpeed\<rparr>\<rparr>))"

definition jumpToPosition :: "engine \<Rightarrow> jsnum \<Rightarrow> outcome" where
  "jumpToPosition e wordIdx =
     (case (currentSession e, documentStructure e) of
        (Some s, Some d) \<Rightarrow>
          (case validatePosition e wordIdx of
             Inl err \<Rightarrow> Threw (handleError err) e
           | Inr (validPosition, e1) \<Rightarrow>
               let e2 = e1\<lparr>currentSession := Some (s\<lparr>currentPosition := validPosition\<rparr>),
                           displayState := (displayState e1)\<lparr>wordIndex := validPosition\<rparr>\<rparr>
               in Returned (if \<not> session_isPaused s then displayCurrentWord e2 else e2))
      | _ \<Rightarrow> Threw (AppError INVALID_READING_SESSION MEDIUM) e)"

definition getCurrentSpeed :: "engine \<Rightarrow> jsnum" where
  "getCurrentSpeed e =
     (case currentSession e of Some s \<Rightarrow> baseSpeed s | None \<Rightarrow> config_baseSpeed (config e))"


definition getCurrentPosition :: "engine \<Rightarrow> jsnum" where
  "getCurrentPosition e =
     (case currentSession e of Some s \<Rightarrow> currentPosition s | None \<Rightarrow> Num 0)"

definition isReading :: "engine \<Rightarrow> bool" where
  "isReading e \<longleftrightarrow>
     (case currentSession e of Some s \<Rightarrow> \<not> session_isPaused s | None \<Rightarrow> False)"

definition isPaused :: "engine \<Rightarrow> bool" where
  "isPaused e \<longleftrightarrow>
     (case currentSession e of Some s \<Rightarrow> session_isPaused s | None \<Rightarrow> False)"

definition stopReading :: "engine \<Rightarrow> engine" where
  "stopReading e =
     (let e1 = stopDisplayLoop e;
          e2 = e1\<lparr>currentSession := None\<rparr>;
          e3 = e2\<lparr>displayState := (displayState e2)\<lparr>isVisible := False\<rparr>\<rparr>
      in emit (onSessionEnd (callbacks e3)) SessionEnded e3)"

subsection \<open>The callbacks of the display loop\<close>




text \<open>
  The function that \<^verbatim>\<open>displayNextWord\<close> of loop \<open>l\<close> hands to \<^verbatim>\<open>setTimeout\<close>: when the delay
  of the displayed word has passed it advances the position, and then either requests the
  next frame of its loop or stops the reading. \<^verbatim>\<open>advanceToNextWord\<close> keeps the session, so
  the branch without a session after it is never taken.
\<close>

definition advance_callback :: "engine \<Rightarrow> nat \<Rightarrow> engine" where
  "advance_callback e l =
     (case currentSession e of
        None \<Rightarrow> e
      | Some s \<Rightarrow>
          if session_isPaused s then e
          else
            let e1 = advanceToNextWord e in
            (case currentSession e1 of
               None \<Rightarrow> e1
             | Some s1 \<Rightarrow>
                 if js_lt (currentPosition s1) (of_count (display_totalWords (displayState e1)))
                 then (case requestAnimationFrame l e1 of
                         (h, e2) \<Rightarrow> e2\<lparr>animationFrameId := Some h\<rparr>)
                 else stopReading e1))"

subsection \<open>The browser running a pending callback\<close>



section \<open>Vocabulary of the statements\<close>


text \<open>The words the engine with the default configuration builds for a text.\<close>

definition engine_words :: "jsstring \<Rightarrow> ProcessedWord list" where
  "engine_words cont =
     (case createDocumentStructure (new_engine no_config)
             \<lparr> content = cont, doc_sections = [], metadata_title = [] \<rparr> of
        Inl err \<Rightarrow> []
      | Inr d \<Rightarrow> words d)"

text \<open>Every section index of a structure lies between 0 and the last word index.\<close>

definition sections_in_range :: "DocumentStructure \<Rightarrow> bool" where
  "sections_in_range d \<longleftrightarrow>
     list_all (\<lambda>sec. 0 \<le> startWordIndex sec \<and> startWordIndex sec \<le> int (length (words d)) - 1 \<and>
                     0 \<le> endWordIndex sec \<and> endWordIndex sec \<le> int (length (words d)) - 1)
              (sections d)"

text \<open>A document of two words whose only section claims eight.\<close>

definition overrun_document :: ProcessedDocument where
  "overrun_document =
     \<lparr> content = js ''one two'',
       doc_sections = [\<lparr> title = js ''All'', startWordIndex = 0, endWordIndex = 7,
                          section_type = Normal \<rparr>],
       metadata_title = js ''t'' \<rparr>"

text \<open>The engine state after a call, and the error thrown by it, if any.\<close>

fun outcome_engine :: "outcome \<Rightarrow> engine" where
  "outcome_engine (Returned e) = e"
| "outcome_engine (Threw err e) = e"

fun thrown :: "outcome \<Rightarrow> error option" where
  "thrown (Returned e) = None"
| "thrown (Threw err e) = Some err"


text \<open>
  An engine in the Reading state, for the examples: every callback registered, the
  default configuration, a document of a heading and a bullet section, started at word 3.
\<close>

definition all_callbacks :: Callbacks where
  "all_callbacks = \<lparr> onWordDisplay = True, onPositionChange = True,
                     onSessionEnd = True, onSectionComplete = True \<rparr>"

definition example_document :: ProcessedDocument where
  "example_document =
     \<lparr> content = js ''Note - item done. extraordinarily'',
       doc_sections =
         [\<lparr> title = js ''Note'', startWordIndex = 0, endWordIndex = 0, section_type = Heading \<rparr>,
          \<lparr> title = js ''Bullet Points'', startWordIndex = 1, endWordIndex = 4,
             section_type = Bullet \<rparr>],
       metadata_title = js ''Example'' \<rparr>"

definition reading_engine :: engine where
  "reading_engine =
     outcome_engine (startReading (setCallbacks (new_engine no_config) all_callbacks)
                       example_document (Num 3))"

text \<open>A document of one word.\<close>

definition short_document :: ProcessedDocument where
  "short_document = \<lparr> content = js ''short'', doc_sections = [], metadata_title = js ''Short'' \<rparr>"

text \<open>The same engine reading the document of one word, at its only word.\<close>

definition finishing_engine :: engine where
  "finishing_engine =
     outcome_engine (startReading (setCallbacks (new_engine no_config) all_callbacks)
                       short_document (Num 0))"


text \<open>
  Sections in order, each with its start not after its end, each next one starting on the
  word after the end of the one before.
\<close>

fun contiguous :: "Section list \<Rightarrow> bool" where
  "contiguous [] = True"
| "contiguous [s] = (startWordIndex s \<le> endWordIndex s)"
| "contiguous (s # t # r) =
     (startWordIndex s \<le> endWordIndex s \<and> startWordIndex t = endWordIndex s + 1 \<and>
      contiguous (t # r))"

text \<open>A line that the detector takes for a heading or a bullet point.\<close>

definition structural_line :: "jsstring \<Rightarrow> bool" where
  "structural_line raw \<longleftrightarrow> isHeading (trim raw) \<or> isBulletPoint (trim raw)"

text \<open>
  The index of the first word of the first heading or bullet line, which is the number of
  words on the lines before it; 0 when no line is a heading or a bullet line.
\<close>

definition first_section_start :: "jsstring \<Rightarrow> nat" where
  "first_section_start cont =
     (if list_ex structural_line (split_lines cont) then
        length (concat (map split_words
                          (takeWhile (\<lambda>raw. \<not> structural_line raw) (split_lines cont))))
      else 0)"












section \<open>Verified properties\<close>

subsection \<open>Tokens and their recognition point\<close>





lemmas char_class_defs = is_space_def is_word_char_def is_upper_def is_digit_def

lemma createDocumentStructure_words:
  assumes "split_words (content doc) \<noteq> []"
  shows "\<exists>d. createDocumentStructure e doc = Inr d \<and> sections d = doc_sections doc \<and>
           totalWords d = length (words d) \<and>
           map word_text (words d) = split_words (content doc) \<and>
           map orp (words d) = map RSVP_calculateORP (split_words (content doc))"
  using assms by (simp add: createDocumentStructure_def Let_def comp_def)





text \<open>
  The scenario of claim C3 (\<^verbatim>\<open>extraordinary\<close> gives 3 and \<^verbatim>\<open>cat\<close> gives 0 on every
  path) fails on the engine for both words and on the document processor for the first.
\<close>

theorem orp_scenario_counterexample:
  "map orp (engine_words (js ''extraordinary'')) \<noteq> [3] \<and>
   map orp (engine_words (js ''cat'')) \<noteq> [0] \<and>
   map orp (processWords (js ''extraordinary'')) \<noteq> [3]"
  by (simp add: engine_words_def createDocumentStructure_def processWords_def js_def
      split_words_def char_class_defs RSVP_calculateORP_def DP_calculateORP_def Let_def)

text \<open>
  Claim C3, as the code has it: \<^verbatim>\<open>extraordinary\<close> gets the index 4 from the engine and 2
  from the document processor; \<^verbatim>\<open>cat\<close> gets 1 from the engine and 0 from the document
  processor.
\<close>

theorem orp_scenario_values:
  "map orp (engine_words (js ''extraordinary'')) = [4] \<and>
   map orp (engine_words (js ''cat'')) = [1] \<and>
   map orp (processWords (js ''extraordinary'')) = [2] \<and>
   map orp (processWords (js ''cat'')) = [0]"
  by (simp add: engine_words_def createDocumentStructure_def processWords_def js_def
      split_words_def char_class_defs RSVP_calculateORP_def DP_calculateORP_def Let_def)

subsection \<open>Assembling the structure\<close>

text \<open>
  Claim C9, as the code has it: both assemblers (\<^verbatim>\<open>extractStructure\<close> of the document
  processor and \<^verbatim>\<open>createDocumentStructure\<close> of the engine) return the sections of the
  document unchanged, and \<open>totalWords\<close> is the number of words.
\<close>

theorem sections_handed_on:
  "sections (extractStructure doc) = doc_sections doc \<and>
   totalWords (extractStructure doc) = length (words (extractStructure doc)) \<and>
   (createDocumentStructure e doc = Inr d \<longrightarrow>
      sections d = doc_sections doc \<and> totalWords d = length (words d))"
  by (auto simp: extractStructure_def createDocumentStructure_def Let_def split: if_splits)

theorem sections_handed_on_witness:
  "\<exists>d. createDocumentStructure (new_engine no_config) overrun_document = Inr d \<and>
       sections d = doc_sections overrun_document \<and> totalWords d = 2 \<and>
       sections (extractStructure overrun_document) = doc_sections overrun_document"
proof -
  have "split_words (content overrun_document) \<noteq> []"
    by (simp add: overrun_document_def js_def split_words_def is_space_def)
  from createDocumentStructure_words[OF this, of "new_engine no_config"] obtain d where
    d: "createDocumentStructure (new_engine no_config) overrun_document = Inr d"
       "map word_text (words d) = split_words (content overrun_document)"
    by blast
  have "length (map word_text (words d)) = 2"
    unfolding d(2) by (simp add: overrun_document_def js_def split_words_def is_space_def)
  then have "length (words d) = 2" by simp
  then show ?thesis
    using d(1) sections_handed_on[of overrun_document "new_engine no_config" d] by simp
qed

text \<open>
  No clamping: a section that ends at word 7 of a two-word document ends there in the
  structure of both assemblers.
\<close>

theorem sections_clamped_counterexample:
  "\<not> sections_in_range (extractStructure overrun_document) \<and>
   \<not> isl (createDocumentStructure (new_engine no_config) overrun_document) \<and>
   \<not> sections_in_range (projr (createDocumentStructure (new_engine no_config) overrun_document))"
  by (simp add: sections_in_range_def extractStructure_def createDocumentStructure_def
      overrun_document_def processWords_def js_def split_words_def is_space_def Let_def)

subsection \<open>Accessors\<close>

text \<open>
  Claim C10: without a session \<^verbatim>\<open>getCurrentPosition\<close> returns 0, \<^verbatim>\<open>getCurrentSpeed\<close>
  returns the configured base speed, and \<^verbatim>\<open>isReading\<close> and \<^verbatim>\<open>isPaused\<close> return false.
  The four accessors have no throwing branch: each is a total function to its value.
\<close>

theorem accessors_without_session:
  assumes "currentSession e = None"
  shows "getCurrentPosition e = Num 0 \<and> getCurrentSpeed e = config_baseSpeed (config e) \<and>
         \<not> isReading e \<and> \<not> isPaused e"
  using assms by (simp add: getCurrentPosition_def getCurrentSpeed_def isReading_def isPaused_def)

theorem accessors_without_session_witness:
  "currentSession (new_engine no_config) = None \<and>
   getCurrentPosition (new_engine no_config) = Num 0 \<and>
   getCurrentSpeed (new_engine no_config) = Num 250 \<and>
   \<not> isReading (new_engine no_config) \<and> \<not> isPaused (new_engine no_config)"
proof -
  have h: "currentSession (new_engine no_config) = None" by (simp add: new_engine_def)
  have "config_baseSpeed (config (new_engine no_config)) = Num 250"
    by (simp add: new_engine_def no_config_def or_default_def)
  with h accessors_without_session[OF h] show ?thesis by simp
qed

subsection \<open>The example engine\<close>

lemmas engine_eval_defs =
  startReading_def createDocumentStructure_def validatePosition_def displayCurrentWord_def
  getCurrentWordDisplay_def calculateWordDuration_def calculatePauseAfter_def
  isAtBulletPoint_def isAtParagraphEnd_def getCurrentSection_def in_section_def
  RSVP_calculateORP_def RSVP_calculateBaseDelay_def RSVP_calculatePunctuationPause_def
  new_engine_def no_config_def or_default_def setCallbacks_def emit_def
  Math_max_def Math_min_def js_sub_def js_ge_def js_gt_def of_count_def
  split_words_def js_def trim_def endsWith_def char_class_defs Let_def

lemma example_words:
  "split_words (content example_document) =
     [js ''Note'', js ''-'', js ''item'', js ''done.'', js ''extraordinarily'']"
  by (simp add: example_document_def split_words_def js_def is_space_def)

lemma reading_engine_session:
  "currentSession reading_engine =
     Some \<lparr> currentPosition = Num 3, baseSpeed = Num 250, session_isPaused = False,
            summariesEnabled = False \<rparr>"
  by (simp add: reading_engine_def example_document_def all_callbacks_def engine_eval_defs)

lemma reading_engine_structure:
  "\<exists>d. documentStructure reading_engine = Some d \<and>
       sections d = doc_sections example_document \<and>
       word_at (words d) (Num 3) =
         Some \<lparr> word_text = js ''done.'', orp = 1, baseDelay = 250,
                punctuationPause = Num 300, isLongWord = False \<rparr>"
  by (simp add: reading_engine_def example_document_def all_callbacks_def engine_eval_defs)

lemma reading_engine_config:
  "config reading_engine = config (new_engine no_config)"
  "callbacks reading_engine = all_callbacks"
  by (simp_all add: reading_engine_def example_document_def all_callbacks_def engine_eval_defs)

subsection \<open>Timing of the current word\<close>

lemma js_add_zero [simp]: "js_add x (Num 0) = x"
  by (cases x) simp_all

text \<open>
  Claim C1. With a session and a word at the current position, the word display has the
  duration \<open>(60 / speed) * 1000\<close> of the session's speed, multiplied by the long-word
  multiplier exactly when the word is flagged long, and the pause after the word is its
  punctuation pause, plus the bullet pause when the first section holding the position is
  a bullet section, plus the paragraph pause when the text of the word ends with a full
  stop, an exclamation mark or a question mark. The multiplier of the default
  configuration is 1.5. The statement holds whether or not the session is paused.
\<close>

theorem word_timing:
  assumes "currentSession e = Some s" and "documentStructure e = Some d"
    and "word_at (words d) (currentPosition s) = Some w"
  shows "getCurrentWordDisplay e =
           \<lparr> word = word_text w,
             wd_orp = orp w,
             duration =
               (let base = js_mul (js_div (Num 60) (baseSpeed s)) (Num 1000)
                in if isLongWord w then js_mul base (longWordMultiplier (config e)) else base),
             pauseAfter =
               js_add
                 (js_add (punctuationPause w)
                    (if (case find (in_section (currentPosition s)) (sections d) of
                           None \<Rightarrow> False | Some sec \<Rightarrow> section_type sec = Bullet)
                     then bulletPause (config e) else Num 0))
                 (if endsWith (word_text w) 46 \<or> endsWith (word_text w) 33 \<or>
                     endsWith (word_text w) 63
                  then paragraphPause (config e) else Num 0) \<rparr> \<and>
         longWordMultiplier (config (new_engine no_config)) = Num (3 / 2)"
  using assms
  by (simp add: getCurrentWordDisplay_def calculateWordDuration_def calculatePauseAfter_def
      isAtBulletPoint_def isAtParagraphEnd_def getCurrentSection_def Let_def
      new_engine_def no_config_def or_default_def)

theorem word_timing_witness:
  "getCurrentWordDisplay reading_engine =
     \<lparr> word = js ''done.'', wd_orp = 1, duration = Num 240, pauseAfter = Num 900 \<rparr>"
proof -
  obtain d where d: "documentStructure reading_engine = Some d"
    "sections d = doc_sections example_document"
    "word_at (words d) (Num 3) =
         Some \<lparr> word_text = js ''done.'', orp = 1, baseDelay = 250,
                punctuationPause = Num 300, isLongWord = False \<rparr>"
    using reading_engine_structure by blast
  have w: "word_at (words d)
      (currentPosition \<lparr> currentPosition = Num 3, baseSpeed = Num 250, session_isPaused = False,
            summariesEnabled = False \<rparr>) = Some \<lparr> word_text = js ''done.'', orp = 1, baseDelay = 250,
                punctuationPause = Num 300, isLongWord = False \<rparr>"
    using d(3) by simp
  show ?thesis
    using word_timing[OF reading_engine_session d(1) w]
    by (simp add: d(2) reading_engine_config example_document_def in_section_def js_ge_def
        endsWith_def js_def new_engine_def no_config_def or_default_def)
qed

subsection \<open>Malformed numbers\<close>

lemma emit_emitted: "\<exists>evs. emitted (emit b ev e) = emitted e @ evs"
  by (simp add: emit_def)

lemma emit_frame [simp]:
  "currentSession (emit b ev e) = currentSession e"
  "documentStructure (emit b ev e) = documentStructure e"
  "displayState (emit b ev e) = displayState e"
  "callbacks (emit b ev e) = callbacks e"
  "config (emit b ev e) = config e"
  "animationFrameId (emit b ev e) = animationFrameId e"
  "lastFrameTimes (emit b ev e) = lastFrameTimes e"
  "pendingFrames (emit b ev e) = pendingFrames e"
  "pendingTimers (emit b ev e) = pendingTimers e"
  "nextHandle (emit b ev e) = nextHandle e"
  by (simp_all add: emit_def)

lemma displayCurrentWord_session [simp]:
  "currentSession (displayCurrentWord e) = currentSession e"
  by (simp add: displayCurrentWord_def Let_def split: option.splits)

lemma displayCurrentWord_emitted: "\<exists>evs. emitted (displayCurrentWord e) = emitted e @ evs"
proof (cases "documentStructure e")
  case None
  then show ?thesis by (simp add: displayCurrentWord_def)
next
  case (Some d)
  show ?thesis
  proof (cases "currentSession e")
    case None
    with Some show ?thesis by (simp add: displayCurrentWord_def)
  next
    case (Some s)
    show ?thesis
    proof (cases "word_at (words d) (currentPosition s)")
      case None
      with Some \<open>documentStructure e = Some d\<close> show ?thesis
        by (simp add: displayCurrentWord_def)
    next
      case (Some w)
      with \<open>currentSession e = Some s\<close> \<open>documentStructure e = Some d\<close> show ?thesis
        by (simp add: displayCurrentWord_def Let_def emit_def)
    qed
  qed
qed

text \<open>
  Claim C7, as the code has it. With a session, a number that is not finite makes
  \<^verbatim>\<open>adjustSpeed\<close> throw a \<^verbatim>\<open>VALIDATION_ERROR\<close> and leave the engine as it was (without a
  session the same call throws an \<^verbatim>\<open>INVALID_READING_SESSION\<close>); \<^verbatim>\<open>jumpToPosition\<close> throws
  nothing: it writes a console warning and sets the position to 0.
\<close>

theorem malformed_number_handling:
  assumes "currentSession e = Some s" and "documentStructure e = Some d" and "\<not> isFinite x"
  shows "adjustSpeed e x = Threw (AppError VALIDATION_ERROR LOW) e \<and>
         thrown (adjustSpeed (e\<lparr>currentSession := None\<rparr>) x) =
           Some (AppError INVALID_READING_SESSION MEDIUM) \<and>
         thrown (jumpToPosition e x) = None \<and>
         getCurrentPosition (outcome_engine (jumpToPosition e x)) = Num 0 \<and>
         take (Suc (length (emitted e))) (emitted (outcome_engine (jumpToPosition e x))) =
           emitted e @ [ConsoleWarn]"
proof -
  let ?e1 = "e\<lparr>emitted := emitted e @ [ConsoleWarn]\<rparr>"
  let ?e2 = "?e1\<lparr>currentSession := Some (s\<lparr>currentPosition := Num 0\<rparr>),
                  displayState := (displayState ?e1)\<lparr>wordIndex := Num 0\<rparr>\<rparr>"
  let ?e3 = "if \<not> session_isPaused s then displayCurrentWord ?e2 else ?e2"
  have jump: "jumpToPosition e x = Returned ?e3"
    using assms by (simp add: jumpToPosition_def validatePosition_def Let_def)
  have pos: "getCurrentPosition ?e3 = Num 0"
    by (simp add: getCurrentPosition_def)
  obtain evs where "emitted ?e3 = (emitted e @ [ConsoleWarn]) @ evs"
    using displayCurrentWord_emitted[of ?e2] by (cases "session_isPaused s") auto
  then have "take (Suc (length (emitted e))) (emitted ?e3) = emitted e @ [ConsoleWarn]"
    by simp
  with jump pos assms show ?thesis
    by (simp add: adjustSpeed_def)
qed

theorem malformed_number_handling_witness:
  "adjustSpeed reading_engine NaN = Threw (AppError VALIDATION_ERROR LOW) reading_engine \<and>
   thrown (jumpToPosition reading_engine PosInf) = None \<and>
   getCurrentPosition (outcome_engine (jumpToPosition reading_engine PosInf)) = Num 0"
proof -
  obtain d where d: "documentStructure reading_engine = Some d"
    using reading_engine_structure by blast
  have "\<not> isFinite NaN" "\<not> isFinite PosInf" by simp_all
  then show ?thesis
    using malformed_number_handling[OF reading_engine_session d, of NaN]
      malformed_number_handling[OF reading_engine_session d, of PosInf]
    by simp
qed

text \<open>
  No validation error from \<^verbatim>\<open>jumpToPosition\<close>: at word 3 of the example, a jump to NaN
  returns normally and the position is 0.
\<close>

theorem malformed_position_counterexample:
  "getCurrentPosition reading_engine = Num 3 \<and>
   thrown (jumpToPosition reading_engine NaN) = None \<and>
   getCurrentPosition (outcome_engine (jumpToPosition reading_engine NaN)) = Num 0 \<and>
   thrown (jumpToPosition reading_engine PosInf) = None"
  by (simp add: reading_engine_def example_document_def all_callbacks_def engine_eval_defs
      jumpToPosition_def getCurrentPosition_def)

subsection \<open>Completion\<close>

lemma emit_count:
  "count_list (emitted (emit b ev e)) SessionEnded =
     count_list (emitted e) SessionEnded + (if b \<and> ev = SessionEnded then 1 else 0)"
  by (simp add: emit_def)

lemma checkForSectionCompletion_frame:
  "currentSession (checkForSectionCompletion e p q) = currentSession e"
  "displayState (checkForSectionCompletion e p q) = displayState e"
  "callbacks (checkForSectionCompletion e p q) = callbacks e"
  "animationFrameId (checkForSectionCompletion e p q) = animationFrameId e"
  "count_list (emitted (checkForSectionCompletion e p q)) SessionEnded =
     count_list (emitted e) SessionEnded"
  by (simp_all add: checkForSectionCompletion_def Let_def emit_count
      split: option.splits prod.splits)

lemma advanceToNextWord_frame:
  assumes "currentSession e = Some s"
  shows "currentSession (advanceToNextWord e) =
           Some (s\<lparr>currentPosition := js_add (currentPosition s) (Num 1)\<rparr>)"
    and "displayState (advanceToNextWord e) = displayState e"
    and "callbacks (advanceToNextWord e) = callbacks e"
    and "count_list (emitted (advanceToNextWord e)) SessionEnded =
           count_list (emitted e) SessionEnded"
  using assms by (simp_all add: advanceToNextWord_def Let_def checkForSectionCompletion_frame)

lemma stopReading_frame:
  "currentSession (stopReading e) = None"
  "callbacks (stopReading e) = callbacks e"
  "count_list (emitted (stopReading e)) SessionEnded =
     count_list (emitted e) SessionEnded + (if onSessionEnd (callbacks e) then 1 else 0)"
  by (simp_all add: stopReading_def stopDisplayLoop_def cancelAnimationFrame_def Let_def
      emit_count split: option.splits)

text \<open>
  Claim C5, as the code has it. Take a reading session that is not paused, with a
  session-end callback registered. An advance step (of any loop) that leaves the position below the
  total number of words keeps the session, one word further, and emits no session-ended
  event. The advance step that moves the position to the total number of words or beyond
  removes the session, so that the engine is no longer reading, and emits the
  session-ended event once. \<^verbatim>\<open>stopReading\<close> emits the event on every call: a call after the
  completion emits it a second time.
\<close>

theorem completion_ends_session:
  assumes "currentSession e = Some s" and "\<not> session_isPaused s"
    and "onSessionEnd (callbacks e)"
  shows "(js_lt (js_add (currentPosition s) (Num 1))
            (of_count (display_totalWords (displayState e))) \<longrightarrow>
            currentSession (advance_callback e l) =
              Some (s\<lparr>currentPosition := js_add (currentPosition s) (Num 1)\<rparr>) \<and>
            count_list (emitted (advance_callback e l)) SessionEnded =
              count_list (emitted e) SessionEnded) \<and>
         (\<not> js_lt (js_add (currentPosition s) (Num 1))
              (of_count (display_totalWords (displayState e))) \<longrightarrow>
            currentSession (advance_callback e l) = None \<and>
            \<not> isReading (advance_callback e l) \<and>
            count_list (emitted (advance_callback e l)) SessionEnded =
              count_list (emitted e) SessionEnded + 1 \<and>
            count_list (emitted (stopReading (advance_callback e l))) SessionEnded =
              count_list (emitted e) SessionEnded + 2)"
proof (intro conjI impI)
  let ?e1 = "advanceToNextWord e"
  note adv = advanceToNextWord_frame[OF assms(1)]
  {
    assume below: "js_lt (js_add (currentPosition s) (Num 1))
            (of_count (display_totalWords (displayState e)))"
    then have step: "advance_callback e l =
        (snd (requestAnimationFrame l ?e1))\<lparr>animationFrameId := Some (nextHandle ?e1)\<rparr>"
      using assms by (simp add: advance_callback_def Let_def adv requestAnimationFrame_def)
    show "currentSession (advance_callback e l) =
            Some (s\<lparr>currentPosition := js_add (currentPosition s) (Num 1)\<rparr>)"
      unfolding step by (simp add: adv requestAnimationFrame_def)
    show "count_list (emitted (advance_callback e l)) SessionEnded =
            count_list (emitted e) SessionEnded"
      unfolding step by (simp add: adv requestAnimationFrame_def)
  }
  {
    assume reached: "\<not> js_lt (js_add (currentPosition s) (Num 1))
            (of_count (display_totalWords (displayState e)))"
    then have step: "advance_callback e l = stopReading ?e1"
      using assms by (simp add: advance_callback_def Let_def adv)
    have cb: "onSessionEnd (callbacks ?e1)" using assms(3) adv(3) by simp
    have one: "count_list (emitted (stopReading ?e1)) SessionEnded =
        count_list (emitted e) SessionEnded + 1"
      using cb by (simp add: stopReading_frame adv(4))
    show "currentSession (advance_callback e l) = None"
      unfolding step by (simp add: stopReading_frame)
    show "\<not> isReading (advance_callback e l)"
      unfolding step by (simp add: stopReading_frame isReading_def)
    show "count_list (emitted (advance_callback e l)) SessionEnded =
        count_list (emitted e) SessionEnded + 1"
      unfolding step by (rule one)
    show "count_list (emitted (stopReading (advance_callback e l))) SessionEnded =
        count_list (emitted e) SessionEnded + 2"
      unfolding step using cb one by (simp add: stopReading_frame)
  }
qed

lemma finishing_engine_facts:
  "currentSession finishing_engine =
     Some \<lparr> currentPosition = Num 0, baseSpeed = Num 250, session_isPaused = False,
            summariesEnabled = False \<rparr>"
  "display_totalWords (displayState finishing_engine) = 1"
  "callbacks finishing_engine = all_callbacks"
  "count_list (emitted finishing_engine) SessionEnded = 0"
  by (simp_all add: finishing_engine_def short_document_def all_callbacks_def engine_eval_defs)

lemma reading_engine_display:
  "display_totalWords (displayState reading_engine) = 5"
  "count_list (emitted reading_engine) SessionEnded = 0"
  by (simp_all add: reading_engine_def example_document_def all_callbacks_def engine_eval_defs)

theorem completion_ends_session_witness:
  "currentSession (advance_callback finishing_engine 0) = None \<and>
   count_list (emitted (advance_callback finishing_engine 0)) SessionEnded = 1 \<and>
   getCurrentPosition (advance_callback reading_engine 0) = Num 4 \<and>
   count_list (emitted (advance_callback reading_engine 0)) SessionEnded = 0"
proof -
  have np: "\<not> session_isPaused \<lparr> currentPosition = Num 0, baseSpeed = Num 250,
            session_isPaused = False, summariesEnabled = False \<rparr>"
    "\<not> session_isPaused \<lparr> currentPosition = Num 3, baseSpeed = Num 250,
            session_isPaused = False, summariesEnabled = False \<rparr>" by simp_all
  have cb: "onSessionEnd (callbacks finishing_engine)" "onSessionEnd (callbacks reading_engine)"
    by (simp_all add: finishing_engine_facts reading_engine_config all_callbacks_def)
  from completion_ends_session[OF finishing_engine_facts(1) np(1) cb(1), of 0]
  have "currentSession (advance_callback finishing_engine 0) = None \<and>
        count_list (emitted (advance_callback finishing_engine 0)) SessionEnded = 1"
    by (simp add: finishing_engine_facts of_count_def)
  moreover from completion_ends_session[OF reading_engine_session np(2) cb(2), of 0]
  have "getCurrentPosition (advance_callback reading_engine 0) = Num 4 \<and>
        count_list (emitted (advance_callback reading_engine 0)) SessionEnded = 0"
    by (simp add: reading_engine_display of_count_def getCurrentPosition_def)
  ultimately show ?thesis by simp
qed

text \<open>
  Not exactly once: after the one-word document has completed, one more \<^verbatim>\<open>stopReading\<close>
  brings the number of session-ended events to two.
\<close>

theorem session_end_once_counterexample:
  "currentSession (advance_callback finishing_engine 0) = None \<and>
   count_list (emitted (stopReading (advance_callback finishing_engine 0))) SessionEnded = 2"
  by (simp add: finishing_engine_def short_document_def all_callbacks_def engine_eval_defs
      advance_callback_def advanceToNextWord_def checkForSectionCompletion_def
      stopReading_def stopDisplayLoop_def cancelAnimationFrame_def)

subsection \<open>Pause and resume\<close>









subsection \<open>Speed adjustment\<close>


















subsection \<open>Section detection\<close>

lemma words_from_append_space:
  "is_space sp \<Longrightarrow> words_from cur (a @ sp # b) = words_from cur a @ words_from [] b"
  by (induction a arbitrary: cur) simp_all

lemma words_from_spaces: "\<forall>c\<in>set t. is_space c \<Longrightarrow> words_from [] t = []"
  by (induction t) simp_all

lemma words_from_trailing:
  assumes "\<forall>c\<in>set t. is_space c"
  shows "words_from cur (a @ t) = words_from cur a"
proof (cases t)
  case Nil
  then show ?thesis by simp
next
  case (Cons sp t')
  with assms have "is_space sp" "\<forall>c\<in>set t'. is_space c" by simp_all
  then show ?thesis
    unfolding Cons by (simp add: words_from_append_space words_from_spaces)
qed

lemma split_words_dropWhile: "split_words (dropWhile is_space s) = split_words s"
  unfolding split_words_def by (induction s) simp_all

lemma split_words_trim: "split_words (trim s) = split_words s"
proof -
  let ?s = "dropWhile is_space s"
  let ?t = "rev (takeWhile is_space (rev ?s))"
  have "rev (dropWhile is_space (rev ?s)) @ ?t =
          rev (takeWhile is_space (rev ?s) @ dropWhile is_space (rev ?s))"
    by (simp only: rev_append)
  also have "\<dots> = rev (rev ?s)" by (simp only: takeWhile_dropWhile_id)
  finally have split: "?s = trim s @ ?t" by (simp add: trim_def)
  have "\<forall>c\<in>set ?t. is_space c" by (auto dest: set_takeWhileD)
  from words_from_trailing[OF this, of "[]" "trim s"]
  have "split_words (trim s @ ?t) = split_words (trim s)" by (simp add: split_words_def)
  with split have "split_words ?s = split_words (trim s)" by simp
  then show ?thesis by (simp add: split_words_dropWhile)
qed

lemma is_space_newline: "is_space 10"
  by (simp add: is_space_def)

lemma lines_from_words:
  "concat (map split_words (lines_from cur s)) = split_words (cur @ s)"
proof (induction s arbitrary: cur)
  case Nil
  then show ?case by simp
next
  case (Cons c s)
  show ?case
  proof (cases "c = 10")
    case True
    have "split_words (cur @ 10 # s) = split_words cur @ split_words s"
      unfolding split_words_def by (rule words_from_append_space[OF is_space_newline])
    with True Cons.IH[of "[]"] show ?thesis by simp
  next
    case False
    with Cons.IH[of "cur @ [c]"] show ?thesis by simp
  qed
qed

lemma split_lines_words: "concat (map split_words (split_lines s)) = split_words s"
  unfolding split_lines_def using lines_from_words[of "[]" s] by simp

lemma words_from_nonempty:
  "cur \<noteq> [] \<or> (\<exists>c\<in>set t. \<not> is_space c) \<Longrightarrow> words_from cur t \<noteq> []"
  by (induction t arbitrary: cur) auto

lemma trim_last_not_space:
  assumes "trim s \<noteq> []"
  shows "\<not> is_space (last (trim s))"
proof -
  let ?r = "dropWhile is_space (rev (dropWhile is_space s))"
  from assms have "?r \<noteq> []" by (simp add: trim_def)
  then have "\<not> is_space (hd ?r)" by (rule hd_dropWhile)
  moreover have "last (trim s) = hd ?r"
    using \<open>?r \<noteq> []\<close> by (simp add: trim_def last_rev)
  ultimately show ?thesis by simp
qed

lemma structural_line_nonempty:
  assumes "structural_line raw"
  shows "trim raw \<noteq> []"
  using assms
  by (auto simp: structural_line_def isHeading_def heading_plain_def heading_numbered_def
      heading_caps_def isBulletPoint_def)

lemma structural_line_has_word:
  assumes "structural_line raw"
  shows "split_words raw \<noteq> []"
proof -
  have ne: "trim raw \<noteq> []" by (rule structural_line_nonempty[OF assms])
  then have "last (trim raw) \<in> set (trim raw)" by simp
  with trim_last_not_space[OF ne] have "\<exists>c\<in>set (trim raw). \<not> is_space c" by blast
  then have "split_words (trim raw) \<noteq> []"
    unfolding split_words_def by (intro words_from_nonempty) simp
  then show ?thesis by (simp add: split_words_trim)
qed

lemma contiguous_snoc:
  "contiguous (A @ [x]) \<longleftrightarrow>
     contiguous A \<and> startWordIndex x \<le> endWordIndex x \<and>
     (A \<noteq> [] \<longrightarrow> startWordIndex x = endWordIndex (last A) + 1)"
  by (induction A rule: contiguous.induct) auto

lemma contiguous_start_le:
  "contiguous (s # r) \<Longrightarrow> \<forall>t\<in>set (s # r). startWordIndex s \<le> startWordIndex t"
proof (induction r arbitrary: s)
  case Nil
  then show ?case by simp
next
  case (Cons t r)
  from Cons.prems have "contiguous (t # r)" "startWordIndex s \<le> startWordIndex t" by simp_all
  with Cons.IH[of t] show ?case by fastforce
qed

lemma contiguous_ordered:
  "contiguous secs \<Longrightarrow> sorted_wrt (\<lambda>a b. endWordIndex a < startWordIndex b) secs"
proof (induction secs rule: contiguous.induct)
  case 1
  show ?case by simp
next
  case (2 s)
  show ?case by simp
next
  case (3 s t r)
  from "3.prems" have tr: "contiguous (t # r)" and link: "startWordIndex t = endWordIndex s + 1"
    by simp_all
  from contiguous_start_le[OF tr] link
  have "\<forall>u\<in>set (t # r). endWordIndex s < startWordIndex u" by fastforce
  with "3.IH"[OF tr] show ?case by simp
qed

lemma contiguous_first_le_last:
  "contiguous secs \<Longrightarrow> secs \<noteq> [] \<Longrightarrow> startWordIndex (hd secs) \<le> endWordIndex (last secs)"
  by (induction secs rule: contiguous.induct) auto

lemma contiguous_union:
  "contiguous secs \<Longrightarrow> secs \<noteq> [] \<Longrightarrow>
     (\<Union>sec\<in>set secs. {startWordIndex sec .. endWordIndex sec}) =
       {startWordIndex (hd secs) .. endWordIndex (last secs)}"
proof (induction secs rule: contiguous.induct)
  case 1
  then show ?case by simp
next
  case (2 s)
  then show ?case by simp
next
  case (3 s t r)
  from "3.prems" have tr: "contiguous (t # r)" and link: "startWordIndex t = endWordIndex s + 1"
    and se: "startWordIndex s \<le> endWordIndex s" by simp_all
  have rest: "(\<Union>sec\<in>set (t # r). {startWordIndex sec .. endWordIndex sec}) =
      {startWordIndex t .. endWordIndex (last (t # r))}"
    using "3.IH"[OF tr] by simp
  have le: "startWordIndex t \<le> endWordIndex (last (t # r))"
    using contiguous_first_le_last[OF tr] by simp
  have "(\<Union>sec\<in>set (s # t # r). {startWordIndex sec .. endWordIndex sec}) =
      {startWordIndex s .. endWordIndex s} \<union>
      (\<Union>sec\<in>set (t # r). {startWordIndex sec .. endWordIndex sec})" by simp
  also have "\<dots> = {startWordIndex s .. endWordIndex s} \<union>
      {endWordIndex s + 1 .. endWordIndex (last (t # r))}"
    unfolding rest link ..
  also have "\<dots> = {startWordIndex s .. endWordIndex (last (t # r))}"
    using se le link by auto
  finally show ?case by simp
qed

lemma close_last_snoc:
  "close_last (A @ [x]) c = A @ [x\<lparr>endWordIndex := c - 1\<rparr>]"
  by (simp add: close_last_def)

lemma close_last_facts:
  "close_last secs c = [] \<longleftrightarrow> secs = []"
  "secs \<noteq> [] \<Longrightarrow> endWordIndex (last (close_last secs c)) = c - 1"
  "secs \<noteq> [] \<Longrightarrow> startWordIndex (hd (close_last secs c)) = startWordIndex (hd secs)"
proof -
  show "close_last secs c = [] \<longleftrightarrow> secs = []" by (simp add: close_last_def)
  show "secs \<noteq> [] \<Longrightarrow> endWordIndex (last (close_last secs c)) = c - 1"
    by (simp add: close_last_def)
  show "secs \<noteq> [] \<Longrightarrow> startWordIndex (hd (close_last secs c)) = startWordIndex (hd secs)"
    by (cases secs rule: rev_cases) (auto simp: close_last_snoc hd_append)
qed

lemma close_last_mono:
  assumes "contiguous (close_last secs c)" and "c \<le> c'"
  shows "contiguous (close_last secs c')"
proof (cases secs rule: rev_cases)
  case Nil
  then show ?thesis by (simp add: close_last_def)
next
  case (snoc A x)
  with assms show ?thesis by (auto simp: close_last_snoc contiguous_snoc)
qed

lemma scan_line_snd:
  "snd (scan_line st raw) = snd st + int (length (split_words raw))"
proof (cases "trim raw = []")
  case True
  then have "split_words (trim raw) = []" by (simp add: split_words_def)
  then have "split_words raw = []" by (simp add: split_words_trim)
  with True show ?thesis by (simp add: scan_line_def Let_def)
next
  case False
  then show ?thesis by (simp add: scan_line_def Let_def split_words_trim)
qed

lemma scan_line_fst:
  "fst (scan_line st raw) = fst st \<and> (fst st = [] \<longrightarrow> \<not> structural_line raw) \<or>
   structural_line raw \<and>
     (\<exists>sec. fst (scan_line st raw) = close_last (fst st) (snd st) @ [sec] \<and>
            startWordIndex sec = snd st)"
proof (cases "isHeading (trim raw)")
  case True
  then show ?thesis by (simp add: scan_line_def Let_def structural_line_def)
next
  case False
  note nh = this
  show ?thesis
  proof (cases "isBulletPoint (trim raw)")
    case True
    show ?thesis
    proof (cases "fst st = [] \<or> section_type (last (fst st)) \<noteq> Bullet")
      case True
      with nh \<open>isBulletPoint (trim raw)\<close> show ?thesis
        by (simp add: scan_line_def Let_def structural_line_def)
    next
      case False
      with nh \<open>isBulletPoint (trim raw)\<close> show ?thesis
        by (simp add: scan_line_def Let_def structural_line_def)
    qed
  next
    case False
    with nh show ?thesis by (simp add: scan_line_def Let_def structural_line_def)
  qed
qed

lemma scan_line_plain:
  "\<not> structural_line raw \<Longrightarrow> fst (scan_line st raw) = fst st"
  by (simp add: scan_line_def Let_def structural_line_def)

lemma scan_line_contiguous:
  assumes "contiguous (close_last (fst st) (snd st))"
  shows "contiguous (close_last (fst (scan_line st raw)) (snd (scan_line st raw)))"
proof -
  let ?c' = "snd (scan_line st raw)"
  have c': "?c' = snd st + int (length (split_words raw))" by (rule scan_line_snd)
  from scan_line_fst[of st raw] show ?thesis
  proof (elim disjE conjE exE)
    assume "fst (scan_line st raw) = fst st"
    moreover have "snd st \<le> ?c'" using c' by simp
    ultimately show ?thesis using close_last_mono[OF assms] by simp
  next
    fix sec
    assume str: "structural_line raw"
      and eq: "fst (scan_line st raw) = close_last (fst st) (snd st) @ [sec]"
      and st: "startWordIndex sec = snd st"
    from structural_line_has_word[OF str] have "0 < length (split_words raw)" by simp
    with c' have lt: "snd st \<le> ?c' - 1" by simp
    have "fst st \<noteq> [] \<Longrightarrow> endWordIndex (last (close_last (fst st) (snd st))) = snd st - 1"
      by (rule close_last_facts(2))
    with assms lt st show ?thesis
      unfolding eq close_last_snoc contiguous_snoc by (simp add: close_last_facts(1))
  qed
qed

lemma scan_line_keeps_first:
  assumes "fst st \<noteq> []"
  shows "fst (scan_line st raw) \<noteq> [] \<and>
         startWordIndex (hd (fst (scan_line st raw))) = startWordIndex (hd (fst st))"
  using scan_line_fst[of st raw] assms
  by (auto simp: hd_append close_last_facts)

lemma foldl_scan_snd:
  "snd (foldl scan_line st ls) = snd st + int (length (concat (map split_words ls)))"
  by (induction ls arbitrary: st) (simp_all add: scan_line_snd)

lemma foldl_scan_contiguous:
  "contiguous (close_last (fst st) (snd st)) \<Longrightarrow>
   contiguous (close_last (fst (foldl scan_line st ls)) (snd (foldl scan_line st ls)))"
  by (induction ls arbitrary: st) (simp_all add: scan_line_contiguous)

lemma foldl_scan_keeps_first:
  "fst st \<noteq> [] \<Longrightarrow>
   fst (foldl scan_line st ls) \<noteq> [] \<and>
   startWordIndex (hd (fst (foldl scan_line st ls))) = startWordIndex (hd (fst st))"
proof (induction ls arbitrary: st)
  case Nil
  then show ?case by simp
next
  case (Cons l ls)
  from scan_line_keeps_first[OF Cons.prems, of l] Cons.IH[of "scan_line st l"]
  show ?case by simp
qed

lemma foldl_scan_plain:
  "\<forall>l\<in>set ls. \<not> structural_line l \<Longrightarrow> fst (foldl scan_line st ls) = fst st"
  by (induction ls arbitrary: st) (simp_all add: scan_line_plain)

lemma foldl_scan_first:
  assumes "\<exists>l\<in>set ls. structural_line l"
  shows "fst (foldl scan_line ([], c) ls) \<noteq> [] \<and>
         startWordIndex (hd (fst (foldl scan_line ([], c) ls))) =
           c + int (length (concat (map split_words
                                      (takeWhile (\<lambda>raw. \<not> structural_line raw) ls))))"
proof -
  let ?P = "\<lambda>raw. \<not> structural_line raw"
  let ?pre = "takeWhile ?P ls"
  from assms have "dropWhile ?P ls \<noteq> []" by (simp add: dropWhile_eq_Nil_conv)
  then obtain l post where dw: "dropWhile ?P ls = l # post" by (cases "dropWhile ?P ls") auto
  then have str: "structural_line l" using hd_dropWhile[of ?P ls] by auto
  have ls: "ls = ?pre @ l # post" using dw by (metis takeWhile_dropWhile_id)
  let ?st1 = "foldl scan_line ([], c) ?pre"
  have "\<forall>x\<in>set ?pre. \<not> structural_line x" by (auto dest: set_takeWhileD)
  then have f1: "fst ?st1 = []" using foldl_scan_plain[of ?pre "([], c)"] by simp
  have s1: "snd ?st1 = c + int (length (concat (map split_words ?pre)))"
    using foldl_scan_snd[of "([], c)" ?pre] by simp
  let ?st2 = "scan_line ?st1 l"
  from scan_line_fst[of ?st1 l] f1 str obtain sec where
    "fst ?st2 = close_last (fst ?st1) (snd ?st1) @ [sec]" "startWordIndex sec = snd ?st1"
    by auto
  then have f2: "fst ?st2 \<noteq> []" "startWordIndex (hd (fst ?st2)) = snd ?st1"
    using f1 by (simp_all add: close_last_def)
  have "foldl scan_line ([], c) ls = foldl scan_line ?st2 post"
    by (subst ls) simp
  with foldl_scan_keeps_first[OF f2(1), of post] f2(2) s1 show ?thesis by simp
qed

text \<open>
  Claim C4, as the code has it. For a text with at least one word, the detected sections
  are not empty, ordered and contiguous with each start not after its end, they do not
  overlap, the last one ends at the last word, and together they cover exactly the words
  from the first word of the first heading or bullet line to the last word; words before
  that line belong to no section. A text without a heading or bullet line yields the one
  default section from 0 to the last word.
\<close>

theorem sections_contiguous_to_end:
  assumes "split_words cont \<noteq> []"
  shows "let secs = extractSections cont; n = int (length (processWords cont)) in
           secs \<noteq> [] \<and> contiguous secs \<and>
           sorted_wrt (\<lambda>a b. endWordIndex a < startWordIndex b) secs \<and>
           startWordIndex (hd secs) = int (first_section_start cont) \<and>
           endWordIndex (last secs) = n - 1 \<and>
           (\<Union>sec\<in>set secs. {startWordIndex sec .. endWordIndex sec}) =
             {int (first_section_start cont) .. n - 1} \<and>
           (\<not> list_ex structural_line (split_lines cont) \<longrightarrow>
              secs = [\<lparr> title = js ''Document Content'', startWordIndex = 0,
                        endWordIndex = n - 1, section_type = Normal \<rparr>])"
proof -
  let ?ls = "split_lines cont"
  let ?st = "foldl scan_line ([], 0) ?ls"
  let ?n = "int (length (processWords cont))"
  let ?secs = "extractSections cont"
  have n: "?n = int (length (split_words cont))" by (simp add: processWords_def)
  have total: "snd ?st = ?n"
    using foldl_scan_snd[of "([], 0)" ?ls] by (simp add: split_lines_words n)
  from assms have pos: "0 \<le> ?n - 1" unfolding n by (cases "split_words cont") simp_all
  have inv: "contiguous (close_last (fst ?st) (snd ?st))"
    by (rule foldl_scan_contiguous) (simp add: close_last_def)
  have main: "?secs \<noteq> [] \<and> contiguous ?secs \<and>
      startWordIndex (hd ?secs) = int (first_section_start cont) \<and> endWordIndex (last ?secs) = ?n - 1 \<and>
      (\<not> list_ex structural_line ?ls \<longrightarrow>
          ?secs = [\<lparr> title = js ''Document Content'', startWordIndex = 0,
                      endWordIndex = ?n - 1, section_type = Normal \<rparr>])"
  proof (cases "\<exists>l\<in>set ?ls. structural_line l")
    case True
    then have ex: "list_ex structural_line ?ls" by (simp add: list_ex_iff)
    from foldl_scan_first[OF True, of 0]
    have first: "fst ?st \<noteq> []" "startWordIndex (hd (fst ?st)) = int (first_section_start cont)"
      by (simp_all add: first_section_start_def ex)
    then have eq: "?secs = close_last (fst ?st) (snd ?st)"
      by (simp add: extractSections_def Let_def close_last_facts(1))
    from ex show ?thesis
      unfolding eq using inv first total
      by (simp add: close_last_facts)
  next
    case False
    then have plain: "\<forall>l\<in>set ?ls. \<not> structural_line l" by blast
    then have "fst ?st = []" using foldl_scan_plain[of ?ls "([], 0)"] by simp
    then have eq: "?secs = [\<lparr> title = js ''Document Content'', startWordIndex = 0,
                      endWordIndex = ?n - 1, section_type = Normal \<rparr>]"
      by (simp add: extractSections_def Let_def close_last_def total)
    have "\<not> list_ex structural_line ?ls" using False by (simp add: list_ex_iff)
    then have "first_section_start cont = 0" by (simp add: first_section_start_def)
    then show ?thesis
      unfolding eq using pos by simp
  qed
  then have ne: "?secs \<noteq> []" and co: "contiguous ?secs" by simp_all
  from contiguous_union[OF co ne] main
  have "(\<Union>sec\<in>set ?secs. {startWordIndex sec .. endWordIndex sec}) =
             {int (first_section_start cont) .. ?n - 1}" by simp
  with main contiguous_ordered[OF co] show ?thesis by (simp add: Let_def)
qed

text \<open>
  A text whose first line is plain and whose second line is a heading: the only section
  starts at word 2, and word 0 lies in no section.
\<close>

lemma late_heading_sections:
  "extractSections (js ''intro text.\<newline>Heading'') =
     [\<lparr> title = js ''Heading'', startWordIndex = 2, endWordIndex = 2, section_type = Heading \<rparr>]"
  by (simp add: extractSections_def split_lines_def scan_line_def close_last_def trim_def
      isHeading_def heading_plain_def heading_numbered_def heading_caps_def isBulletPoint_def
      split_words_def js_def is_space_def is_upper_def is_digit_def Let_def)

lemma late_heading_words:
  "split_words (js ''intro text.\<newline>Heading'') = [js ''intro'', js ''text.'', js ''Heading'']"
  by (simp add: split_words_def js_def is_space_def)

theorem sections_cover_counterexample:
  "split_words (js ''intro text.\<newline>Heading'') \<noteq> [] \<and>
   length (processWords (js ''intro text.\<newline>Heading'')) = 3 \<and>
   startWordIndex (hd (extractSections (js ''intro text.\<newline>Heading''))) \<noteq> 0 \<and>
   \<not> list_ex (\<lambda>sec. startWordIndex sec \<le> 0 \<and> 0 \<le> endWordIndex sec)
        (extractSections (js ''intro text.\<newline>Heading''))"
  by (simp add: late_heading_sections late_heading_words processWords_def)

lemma plain_text_lines:
  "split_lines (js ''just plain words.'') = [js ''just plain words.'']"
  "split_words (js ''just plain words.'') = [js ''just'', js ''plain'', js ''words.'']"
  "\<not> structural_line (js ''just plain words.'')"
  by (simp_all add: split_lines_def split_words_def structural_line_def trim_def
      isHeading_def heading_plain_def heading_numbered_def heading_caps_def isBulletPoint_def
      js_def is_space_def is_upper_def is_digit_def)

theorem sections_contiguous_to_end_witness:
  "contiguous (extractSections (js ''intro text.\<newline>Heading'')) \<and>
   first_section_start (js ''intro text.\<newline>Heading'') = 2 \<and>
   endWordIndex (last (extractSections (js ''intro text.\<newline>Heading''))) = 2 \<and>
   extractSections (js ''just plain words.'') =
     [\<lparr> title = js ''Document Content'', startWordIndex = 0, endWordIndex = 2,
        section_type = Normal \<rparr>]"
proof -
  have ne: "split_words (js ''intro text.\<newline>Heading'') \<noteq> []"
    by (simp add: late_heading_words)
  have ne': "split_words (js ''just plain words.'') \<noteq> []"
    by (simp add: plain_text_lines)
  have plain: "\<not> list_ex structural_line (split_lines (js ''just plain words.''))"
    by (simp add: plain_text_lines)
  from sections_contiguous_to_end[OF ne]
  have "contiguous (extractSections (js ''intro text.\<newline>Heading'')) \<and>
   first_section_start (js ''intro text.\<newline>Heading'') = 2 \<and>
   endWordIndex (last (extractSections (js ''intro text.\<newline>Heading''))) = 2"
    by (simp add: Let_def late_heading_sections processWords_def late_heading_words)
  moreover from sections_contiguous_to_end[OF ne'] plain
  have "extractSections (js ''just plain words.'') =
     [\<lparr> title = js ''Document Content'', startWordIndex = 0, endWordIndex = 2,
        section_type = Normal \<rparr>]"
    by (simp add: Let_def processWords_def plain_text_lines)
  ultimately show ?thesis by simp
qed

end
